theory Spec2Isabelle
  imports Main
begin

section \<open>Text preprocessing (app.py, lines 62-67)\<close>

text \<open>
  Python strings are modelled as HOL strings. \<open>clean_text\<close> first turns every
  character that is not one of the 52 ASCII letters into a space and afterwards only
  splits on whitespace, so a character outside ASCII contributes separators only,
  however many units it is made of.

  \<^verbatim>\<open>
  def clean_text(text):
      text = re.sub('[^a-zA-Z]', ' ', text)
      text = text.lower()
      text = text.split()
      text = [word for word in text if word not in stop_words]
      return ' '.join(text)
  \<close>

  The module constant \<open>stop_words\<close> is \<open>stopwords.words('english')\<close> of the NLTK
  corpus, which is data outside the repository: it is a parameter of the model.
\<close>

definition is_upper :: "char \<Rightarrow> bool" where
  "is_upper c = (65 \<le> (of_char c :: nat) \<and> (of_char c :: nat) \<le> 90)"

definition is_lower :: "char \<Rightarrow> bool" where
  "is_lower c = (97 \<le> (of_char c :: nat) \<and> (of_char c :: nat) \<le> 122)"

definition is_alpha :: "char \<Rightarrow> bool" where
  \<comment> \<open>the character class \<open>[a-zA-Z]\<close>\<close>
  "is_alpha c = (is_lower c \<or> is_upper c)"

definition is_space :: "char \<Rightarrow> bool" where
  \<comment> \<open>the ASCII characters that \<open>str.split()\<close> treats as whitespace:
      tab, line feed, vertical tab, form feed, carriage return, the four
      separators \<open>0x1c\<close> to \<open>0x1f\<close>, and the space\<close>
  "is_space c = ((9 \<le> (of_char c :: nat) \<and> (of_char c :: nat) \<le> 13)
                 \<or> (28 \<le> (of_char c :: nat) \<and> (of_char c :: nat) \<le> 32))"

definition re_sub :: "string \<Rightarrow> string" where
  \<comment> \<open>\<open>re.sub('[^a-zA-Z]', ' ', text)\<close>\<close>
  "re_sub text = map (\<lambda>c. if is_alpha c then c else CHR '' '') text"

definition lower_char :: "char \<Rightarrow> char" where
  "lower_char c = (if is_upper c then char_of ((of_char c :: nat) + 32) else c)"

definition str_lower :: "string \<Rightarrow> string" where
  \<comment> \<open>\<open>text.lower()\<close>\<close>
  "str_lower text = map lower_char text"

fun split_aux :: "string \<Rightarrow> string \<Rightarrow> string list" where
  "split_aux acc [] = (if acc = [] then [] else [rev acc])"
| "split_aux acc (c # cs) =
     (if is_space c
      then (if acc = [] then split_aux [] cs else rev acc # split_aux [] cs)
      else split_aux (c # acc) cs)"

definition str_split :: "string \<Rightarrow> string list" where
  \<comment> \<open>\<open>text.split()\<close>: the maximal runs of characters that are not whitespace;
      \<open>acc\<close> holds the current run, reversed\<close>
  "str_split text = split_aux [] text"

fun str_join :: "string \<Rightarrow> string list \<Rightarrow> string" where
  \<comment> \<open>\<open>sep.join(words)\<close>\<close>
  "str_join sep [] = []"
| "str_join sep [w] = w"
| "str_join sep (w # v # ws) = w @ sep @ str_join sep (v # ws)"

definition clean_text :: "string list \<Rightarrow> string \<Rightarrow> string" where
  "clean_text stop_words text =
     (let text1 = re_sub text;
          text2 = str_lower text1;
          text3 = str_split text2;
          text4 = [word \<leftarrow> text3. word \<notin> set stop_words]
      in str_join '' '' text4)"

definition stop_words_sample :: "string list" where
  \<comment> \<open>the first entries of NLTK's English list and a few later ones; used to
      instantiate the parameter \<open>stop_words\<close> at concrete inputs\<close>
  "stop_words_sample =
     [''i'', ''me'', ''my'', ''myself'', ''we'', ''our'', ''ours'', ''ourselves'',
      ''you'', ''your'', ''he'', ''she'', ''it'', ''they'', ''this'', ''that'',
      ''am'', ''is'', ''are'', ''was'', ''a'', ''an'', ''the'', ''and'', ''but'',
      ''if'', ''or'', ''of'', ''at'', ''by'', ''for'', ''with'', ''to'', ''not'',
      ''s'', ''t'', ''don'', ''don't'']"

subsection \<open>The cleaner as the specification words it\<close>

text \<open>
  A second reading of the cleaner, following the sentence of the specification step by
  step: the Latin alphabet is written out letter by letter, lower-casing looks the
  letter up in that alphabet, splitting cuts the text at every whitespace character
  and discards the empty pieces, and rejoining puts one space in front of every token
  but the first.
\<close>

definition latin_lower :: string where
  "latin_lower = ''abcdefghijklmnopqrstuvwxyz''"

definition latin_upper :: string where
  "latin_upper = ''ABCDEFGHIJKLMNOPQRSTUVWXYZ''"

definition replace_non_latin :: "string \<Rightarrow> string" where
  "replace_non_latin text =
     map (\<lambda>c. if c \<in> set (latin_lower @ latin_upper) then c else CHR '' '') text"

definition lower_case :: "string \<Rightarrow> string" where
  "lower_case text =
     map (\<lambda>c. case map_of (zip latin_upper latin_lower) c of None \<Rightarrow> c | Some l \<Rightarrow> l) text"

fun pieces :: "string \<Rightarrow> string list" where
  "pieces [] = [[]]"
| "pieces (c # cs) =
     (if is_space c then [] # pieces cs
      else (case pieces cs of [] \<Rightarrow> [[c]] | p # ps \<Rightarrow> (c # p) # ps))"

definition split_on_whitespace :: "string \<Rightarrow> string list" where
  "split_on_whitespace text = filter (\<lambda>p. p \<noteq> []) (pieces text)"

fun drop_stopwords :: "string list \<Rightarrow> string list \<Rightarrow> string list" where
  "drop_stopwords stop_words [] = []"
| "drop_stopwords stop_words (t # ts) =
     (if t \<in> set stop_words then drop_stopwords stop_words ts
      else t # drop_stopwords stop_words ts)"

definition rejoin :: "string list \<Rightarrow> string" where
  "rejoin tokens =
     (case tokens of [] \<Rightarrow> [] | t # ts \<Rightarrow> t @ concat (map (\<lambda>u. CHR '' '' # u) ts))"

definition clean_spec :: "string list \<Rightarrow> string \<Rightarrow> string" where
  "clean_spec stop_words text =
     rejoin (drop_stopwords stop_words
       (split_on_whitespace (lower_case (replace_non_latin text))))"

subsection \<open>The shape of a cleaned string\<close>

fun no_double_space :: "string \<Rightarrow> bool" where
  "no_double_space (a # b # cs) =
     (\<not> (a = CHR '' '' \<and> b = CHR '' '') \<and> no_double_space (b # cs))"
| "no_double_space cs = True"

section \<open>Credential store (app.py, lines 20-51)\<close>

text \<open>
  The file \<open>users.db\<close> either has no \<open>users\<close> table yet (\<open>None\<close>) or holds its rows
  in insertion order. The column \<open>username\<close> is the primary key of a \<open>TEXT\<close> column
  with the default binary collation, so two keys clash exactly when the strings are
  equal. A statement on a missing table raises \<open>sqlite3.OperationalError\<close>, which
  neither function catches.
\<close>

datatype exn =
    OperationalError
  | IndexError
  | KeyError string
  | ExternalError string

record user_row =
  username :: string
  name :: string
  password :: string

type_synonym database = "user_row list option"

definition init_db :: "database \<Rightarrow> database" where
  \<comment> \<open>\<open>CREATE TABLE IF NOT EXISTS users (...)\<close>\<close>
  "init_db db = (case db of None \<Rightarrow> Some [] | Some rows \<Rightarrow> Some rows)"

definition register_user ::
  "database \<Rightarrow> string \<Rightarrow> string \<Rightarrow> string \<Rightarrow> (exn + bool \<times> string) \<times> database" where
  "register_user db uname nm pw =
     (case db of
        None \<Rightarrow> (Inl OperationalError, db)
      | Some rows \<Rightarrow>
          if uname \<in> set (map username rows)
          then (Inr (False, ''Username already exists.''), db)
          else (Inr (True, ''User registered successfully.''),
                Some (rows @ [\<lparr>username = uname, name = nm, password = pw\<rparr>])))"

definition login_user ::
  "database \<Rightarrow> string \<Rightarrow> string \<Rightarrow> (exn + user_row option) \<times> database" where
  \<comment> \<open>\<open>SELECT * ... WHERE username = ? AND password = ?\<close>, then \<open>fetchone()\<close>\<close>
  "login_user db uname pw =
     (case db of
        None \<Rightarrow> (Inl OperationalError, db)
      | Some rows \<Rightarrow>
          (Inr (find (\<lambda>r. username r = uname \<and> password r = pw) rows), db))"

section \<open>Sentiment prediction (app.py, lines 70-74)\<close>

text \<open>
  The classifier and the vectorizer are unpickled objects of a library. Both work row
  by row: \<open>vectorizer.transform\<close> maps a list of documents to one feature row per
  document, and \<open>model.predict\<close> maps feature rows to one raw label per row. They are
  modelled by the function applied to each row; raw labels are integers, and Python's
  \<open>prediction == 1\<close> is equality with the integer one.
\<close>

type_synonym 'r vectorizer = "string \<Rightarrow> 'r"
type_synonym 'r classifier = "'r \<Rightarrow> int"

definition predict_sentiment ::
  "string list \<Rightarrow> string \<Rightarrow> 'r classifier \<Rightarrow> 'r vectorizer \<Rightarrow> exn + string" where
  "predict_sentiment stop_words text model vectorizer =
     (let cleaned = clean_text stop_words text;
          vector = map vectorizer [cleaned]
      in case map model vector of
           [] \<Rightarrow> Inl IndexError
         | prediction # _ \<Rightarrow> Inr (if prediction = 1 then ''Positive'' else ''Negative''))"

section \<open>Remote fetch and the analysis flow (app.py, lines 77-82 and 119-146)\<close>

text \<open>
  \<open>nitter\<close> stands for \<open>Nitter().get_tweets(username, mode='user', number=5)\<close>: a call
  into a library and the network, which either raises or returns a dictionary whose
  entry \<open>'tweets'\<close>, when present, is a list of dictionaries. \<open>get_tweets\<close> has no
  handler around it.
\<close>

type_synonym tweet = "string \<rightharpoonup> string"
type_synonym tweets_data = "string \<rightharpoonup> tweet list"

fun tweet_texts :: "tweet list \<Rightarrow> exn + string list" where
  \<comment> \<open>\<open>[tweet['text'] for tweet in ...]\<close>\<close>
  "tweet_texts [] = Inr []"
| "tweet_texts (tweet # rest) =
     (case tweet ''text'' of
        None \<Rightarrow> Inl (KeyError ''text'')
      | Some t \<Rightarrow> (case tweet_texts rest of Inl e \<Rightarrow> Inl e | Inr ts \<Rightarrow> Inr (t # ts)))"

definition get_tweets ::
  "bool \<Rightarrow> (string \<Rightarrow> exn + tweets_data) \<Rightarrow> string \<Rightarrow> exn + string list" where
  "get_tweets scraper_available nitter uname =
     (if \<not> scraper_available then Inr []
      else case nitter uname of
             Inl e \<Rightarrow> Inl e
           | Inr data \<Rightarrow>
               tweet_texts (case data ''tweets'' of None \<Rightarrow> [] | Some ts \<Rightarrow> ts))"

definition failing_nitter :: "string \<Rightarrow> exn + tweets_data" where
  \<comment> \<open>a remote call that fails by raising\<close>
  "failing_nitter uname = Inl (ExternalError ''connection refused'')"

definition empty_nitter :: "string \<Rightarrow> exn + tweets_data" where
  \<comment> \<open>a remote call that found nothing: the library's result with no tweets in it\<close>
  "empty_nitter uname = Inr [''tweets'' \<mapsto> [], ''threads'' \<mapsto> []]"

text \<open>
  The messages a run puts on the page: \<open>st.success\<close>, \<open>st.warning\<close>, \<open>st.info\<close>,
  \<open>st.error\<close> and \<open>st.markdown\<close>. Headers and input widgets are left out; what the
  user chose in the widgets is the record \<open>ui_input\<close>. An exception that nothing
  catches ends the run.
\<close>

datatype message =
    Success string
  | Warning string
  | Info string
  | Error string
  | Markdown string

record ui_input =
  model_choice :: string
  option_choice :: string
  user_text :: string
  analyze_clicked :: bool
  twitter_user :: string
  fetch_clicked :: bool

fun show_tweets ::
  "string list \<Rightarrow> 'r classifier \<Rightarrow> 'r vectorizer \<Rightarrow> string list \<Rightarrow> exn + message list" where
  \<comment> \<open>the loop \<open>for tweet in tweets\<close>\<close>
  "show_tweets stop_words model vectorizer [] = Inr []"
| "show_tweets stop_words model vectorizer (tweet # rest) =
     (case predict_sentiment stop_words tweet model vectorizer of
        Inl e \<Rightarrow> Inl e
      | Inr sentiment \<Rightarrow>
          (let color = (if sentiment = ''Positive'' then ''lightgreen'' else ''tomato'');
               box = ''<div style='background-color:'' @ color
                     @ ''; padding:10px; border-radius:5px;'>'' @ tweet
                     @ ''<br><b>'' @ sentiment @ ''</b></div>''
           in case show_tweets stop_words model vectorizer rest of
                Inl e \<Rightarrow> Inl e
              | Inr ms \<Rightarrow> Inr (Markdown box # ms)))"

definition run_sentiment_analysis ::
  "string list \<Rightarrow> bool \<Rightarrow> (string \<Rightarrow> exn + tweets_data)
     \<Rightarrow> (string \<Rightarrow> exn + 'r classifier \<times> 'r vectorizer) \<Rightarrow> ui_input \<Rightarrow> exn + message list" where
  "run_sentiment_analysis stop_words scraper_available nitter load_model inp =
     (case load_model (model_choice inp) of
        Inl e \<Rightarrow> Inl e
      | Inr (model, vectorizer) \<Rightarrow>
          if option_choice inp = ''Input text'' then
            (if analyze_clicked inp then
               (case predict_sentiment stop_words (user_text inp) model vectorizer of
                  Inl e \<Rightarrow> Inl e
                | Inr sentiment \<Rightarrow> Inr [Success (''Sentiment: '' @ sentiment)])
             else Inr [])
          else if option_choice inp = ''Analyze tweets from username'' then
            (if \<not> scraper_available then
               Inr [Warning ''Nitter module not installed. Twitter scraping unavailable.'']
             else if fetch_clicked inp then
               (case get_tweets scraper_available nitter (twitter_user inp) of
                  Inl e \<Rightarrow> Inl e
                | Inr tweets \<Rightarrow>
                    if tweets \<noteq> [] then show_tweets stop_words model vectorizer tweets
                    else Inr [Info ''No tweets found or failed to fetch.''])
             else Inr [])
          else Inr [])"

text \<open>
  Concrete collaborators for evaluating the flow: a bundle whose vectorizer is the
  identity on the cleaned text and whose classifier answers \<open>1\<close> on one document
  only, and the widget state of a user who asked for the tweets of \<open>alice\<close>.
\<close>

definition demo_load_model :: "string \<Rightarrow> exn + string classifier \<times> string vectorizer" where
  "demo_load_model model_name =
     Inr (\<lambda>row. if row = ''good day'' then 1 else 0, \<lambda>document. document)"

definition demo_input :: ui_input where
  "demo_input =
     \<lparr>model_choice = ''logistic'', option_choice = ''Analyze tweets from username'',
      user_text = [], analyze_clicked = False,
      twitter_user = ''alice'', fetch_clicked = True\<rparr>"

section \<open>Prediction with the interpreter state made explicit\<close>

text \<open>
  \<open>predict_sentiment\<close> once more, this time with everything a call could read or
  leave behind in view. The world of a run holds the module global \<open>stop_words\<close>
  (a mutable list that \<open>clean_text\<close> reads), the credential table, and the attribute
  state of the two unpickled objects. A method of an object takes the object's state
  and returns its result together with the state it leaves: \<open>vectorizer.transform\<close>
  on a list of documents, \<open>model.predict\<close> on the rows it produced. Nothing is assumed
  about the methods here; what the function itself does to the world is what the
  source does, which is to assign to local names only.
\<close>

record ('m, 'v) world =
  stop_words_global :: "string list"
  users_db :: database
  model_state :: 'm
  vectorizer_state :: 'v

type_synonym ('v, 'r) transform_method = "'v \<Rightarrow> string list \<Rightarrow> 'r list \<times> 'v"
type_synonym ('m, 'r) predict_method = "'m \<Rightarrow> 'r list \<Rightarrow> int list \<times> 'm"

definition predict_sentiment_call ::
  "string \<Rightarrow> ('m, 'r) predict_method \<Rightarrow> ('v, 'r) transform_method
     \<Rightarrow> ('m, 'v) world \<Rightarrow> (exn + string) \<times> ('m, 'v) world" where
  "predict_sentiment_call text predict transform w =
     (let cleaned = clean_text (stop_words_global w) text;
          (vector, vs) = transform (vectorizer_state w) [cleaned];
          (predictions, ms) = predict (model_state w) vector;
          w' = w\<lparr>vectorizer_state := vs, model_state := ms\<rparr>
      in (case predictions of
            [] \<Rightarrow> Inl IndexError
          | prediction # _ \<Rightarrow> Inr (if prediction = 1 then ''Positive'' else ''Negative''),
          w'))"

definition read_only :: "('s \<Rightarrow> 'a \<Rightarrow> 'b \<times> 's) \<Rightarrow> bool" where
  \<comment> \<open>a method that leaves the state of its object as it found it, as the
      \<open>predict\<close> and \<open>transform\<close> of a fitted estimator do\<close>
  "read_only method = (\<forall>s x. snd (method s x) = s)"

definition demo_predict :: "(nat, string) predict_method" where
  "demo_predict s rows = (map (\<lambda>row. if row = ''good day'' then 1 else 0) rows, s)"

definition demo_transform :: "(nat, string) transform_method" where
  "demo_transform s documents = (documents, s)"

definition counting_predict :: "(nat, string) predict_method" where
  \<comment> \<open>an object that is not read-only: it answers \<open>1\<close> on its first call only\<close>
  "counting_predict s rows = (map (\<lambda>row. if s = 0 then 1 else 0) rows, Suc s)"

definition demo_world :: "(nat, nat) world" where
  "demo_world =
     \<lparr>stop_words_global = stop_words_sample, users_db = Some [],
      model_state = 0, vectorizer_state = 0\<rparr>"

section \<open>Properties of the text cleaner\<close>

subsection \<open>Character classes\<close>

lemma is_space_blank: "is_space CHR '' ''"
  by (simp add: is_space_def)

lemma is_lower_not_space: "is_lower c \<Longrightarrow> \<not> is_space c"
  by (simp add: is_lower_def is_space_def)

lemma is_lower_not_upper: "is_lower c \<Longrightarrow> \<not> is_upper c"
  by (simp add: is_lower_def is_upper_def)

lemma is_lower_not_blank: "is_lower c \<Longrightarrow> c \<noteq> CHR '' ''"
  using is_lower_not_space is_space_blank by blast

lemma lower_char_lower: "is_lower c \<Longrightarrow> lower_char c = c"
  by (simp add: lower_char_def is_lower_not_upper)

lemma lower_char_blank: "lower_char CHR '' '' = CHR '' ''"
  by (simp add: lower_char_def is_upper_def)

lemma lower_char_upper: "is_upper c \<Longrightarrow> is_lower (lower_char c)"
  by (simp add: lower_char_def is_upper_def is_lower_def)

lemma lower_char_alpha: "is_alpha c \<Longrightarrow> is_lower (lower_char c)"
  using lower_char_upper lower_char_lower by (auto simp: is_alpha_def)

lemma lower_re_sub_chars:
  "c \<in> set (str_lower (re_sub text)) \<Longrightarrow> is_lower c \<or> c = CHR '' ''"
  by (auto simp: str_lower_def re_sub_def lower_char_alpha lower_char_blank)

lemma lower_re_sub_fixed:
  assumes "\<forall>c\<in>set s. is_lower c \<or> c = CHR '' ''"
  shows "str_lower (re_sub s) = s"
proof -
  have "lower_char (if is_alpha c then c else CHR '' '') = c" if "c \<in> set s" for c
  proof (cases "is_lower c")
    case True
    then show ?thesis by (simp add: is_alpha_def lower_char_lower)
  next
    case False
    with assms that have "c = CHR '' ''" by blast
    then show ?thesis by (simp add: lower_char_blank)
  qed
  then show ?thesis
    by (simp add: str_lower_def re_sub_def map_idI)
qed

subsection \<open>Splitting and joining\<close>

lemma split_aux_run:
  "\<forall>c\<in>set w. \<not> is_space c \<Longrightarrow> split_aux acc (w @ rest) = split_aux (rev w @ acc) rest"
  by (induction w arbitrary: acc) simp_all

lemma split_aux_tokens:
  "\<forall>c\<in>set acc. \<not> is_space c \<Longrightarrow> w \<in> set (split_aux acc s) \<Longrightarrow>
     w \<noteq> [] \<and> (\<forall>c\<in>set w. \<not> is_space c \<and> (c \<in> set acc \<or> c \<in> set s))"
proof (induction s arbitrary: acc w)
  case Nil
  then show ?case by (auto split: if_splits)
next
  case (Cons a s)
  show ?case
  proof (cases "is_space a")
    case True
    show ?thesis
    proof (cases "w = rev acc \<and> acc \<noteq> []")
      case True
      then show ?thesis using Cons.prems(1) by auto
    next
      case False
      with \<open>is_space a\<close> Cons.prems(2) have "w \<in> set (split_aux [] s)"
        by (auto split: if_splits)
      from Cons.IH [OF _ this] show ?thesis by simp
    qed
  next
    case False
    with Cons.prems
    have "\<forall>c\<in>set (a # acc). \<not> is_space c" "w \<in> set (split_aux (a # acc) s)"
      by simp_all
    from Cons.IH [OF this] show ?thesis by auto
  qed
qed

lemma str_split_tokens:
  "w \<in> set (str_split s) \<Longrightarrow> w \<noteq> [] \<and> (\<forall>c\<in>set w. \<not> is_space c \<and> c \<in> set s)"
  using split_aux_tokens [of "[]" w s] by (simp add: str_split_def)

lemma split_join:
  "\<forall>w\<in>set ws. w \<noteq> [] \<and> (\<forall>c\<in>set w. \<not> is_space c) \<Longrightarrow>
     str_split (str_join '' '' ws) = ws"
proof (induction ws rule: induct_list012)
  case 1
  then show ?case by (simp add: str_split_def)
next
  case (2 w)
  then show ?case
    using split_aux_run [of w "[]" "[]"] by (simp add: str_split_def)
next
  case (3 w v ws)
  have "split_aux [] (w @ '' '' @ str_join '' '' (v # ws))
          = split_aux (rev w) ('' '' @ str_join '' '' (v # ws))"
    using 3 split_aux_run [of w "[]"] by simp
  also have "\<dots> = w # split_aux [] (str_join '' '' (v # ws))"
    using 3 by (simp add: is_space_blank)
  finally show ?case using 3 by (simp add: str_split_def)
qed

lemma join_chars:
  "c \<in> set (str_join sep ws) \<Longrightarrow> c \<in> set sep \<or> (\<exists>w\<in>set ws. c \<in> set w)"
  by (induction ws rule: induct_list012) auto

lemma join_empty: "str_join sep ws = [] \<Longrightarrow> \<forall>w\<in>set ws. w \<noteq> [] \<Longrightarrow> ws = []"
  by (induction ws rule: induct_list012) auto

lemma join_hd:
  "ws \<noteq> [] \<Longrightarrow> hd ws \<noteq> [] \<Longrightarrow> hd (str_join sep ws) = hd (hd ws)"
  by (induction ws rule: induct_list012) auto

lemma join_nonempty: "ws \<noteq> [] \<Longrightarrow> last ws \<noteq> [] \<Longrightarrow> str_join sep ws \<noteq> []"
  by (induction ws rule: induct_list012) auto

lemma join_last:
  "ws \<noteq> [] \<Longrightarrow> last ws \<noteq> [] \<Longrightarrow> last (str_join sep ws) = last (last ws)"
proof (induction ws rule: induct_list012)
  case (3 w v ws)
  then have "str_join sep (v # ws) \<noteq> []"
    using join_nonempty [of "v # ws" sep] by simp
  then show ?case using 3 by simp
qed simp_all

lemma no_double_space_run:
  "CHR '' '' \<notin> set w \<Longrightarrow> no_double_space (w @ CHR '' '' # v) = no_double_space (CHR '' '' # v)"
proof (induction w)
  case Nil
  then show ?case by simp
next
  case (Cons a w)
  then show ?case by (cases w) auto
qed

lemma no_double_space_join:
  "\<forall>w\<in>set ws. w \<noteq> [] \<and> CHR '' '' \<notin> set w \<Longrightarrow> no_double_space (str_join '' '' ws)"
proof (induction ws rule: induct_list012)
  case 1
  then show ?case by simp
next
  case (2 w)
  then have "CHR '' '' \<notin> set w" by simp
  then show ?case by (induction w rule: induct_list012) auto
next
  case (3 w v ws)
  then have "v \<noteq> []" "CHR '' '' \<notin> set v" by auto
  then have v: "v \<noteq> []" "hd v \<noteq> CHR '' ''" by (cases v; auto)+
  have "str_join '' '' (v # ws) \<noteq> []" "hd (str_join '' '' (v # ws)) = hd v"
    using v join_hd [of "v # ws" "'' ''"] join_empty [of "'' ''" "v # ws"] 3 by auto
  then obtain b bs where b: "str_join '' '' (v # ws) = b # bs" "b \<noteq> CHR '' ''"
    using v by (cases "str_join '' '' (v # ws)") auto
  have "no_double_space (b # bs)" using 3 b by simp
  then have "no_double_space (CHR '' '' # b # bs)" using b by simp
  then show ?case using 3 no_double_space_run [of w "b # bs"] b by simp
qed

subsection \<open>Tokens that survive the filter\<close>

lemma clean_text_tokens:
  "clean_text sw s = str_join '' '' [w \<leftarrow> str_split (str_lower (re_sub s)). w \<notin> set sw]"
  by (simp add: clean_text_def)

lemma kept_tokens:
  assumes "w \<in> set [w \<leftarrow> str_split (str_lower (re_sub s)). w \<notin> set sw]"
  shows "w \<noteq> [] \<and> (\<forall>c\<in>set w. is_lower c) \<and> w \<notin> set sw"
proof -
  from assms have w: "w \<in> set (str_split (str_lower (re_sub s)))" "w \<notin> set sw"
    by simp_all
  have "is_lower c" if "c \<in> set w" for c
  proof -
    from str_split_tokens [OF w(1)] that
    have "\<not> is_space c" "c \<in> set (str_lower (re_sub s))" by simp_all
    with lower_re_sub_chars [of c s] is_space_blank show ?thesis by auto
  qed
  with str_split_tokens [OF w(1)] w(2) show ?thesis by simp
qed

lemma split_clean_text:
  "str_split (clean_text sw s) = [w \<leftarrow> str_split (str_lower (re_sub s)). w \<notin> set sw]"
proof -
  have "\<forall>w\<in>set [w \<leftarrow> str_split (str_lower (re_sub s)). w \<notin> set sw].
          w \<noteq> [] \<and> (\<forall>c\<in>set w. \<not> is_space c)"
  proof
    fix w
    assume "w \<in> set [w \<leftarrow> str_split (str_lower (re_sub s)). w \<notin> set sw]"
    then have "w \<noteq> [] \<and> (\<forall>c\<in>set w. is_lower c) \<and> w \<notin> set sw"
      by (rule kept_tokens)
    then show "w \<noteq> [] \<and> (\<forall>c\<in>set w. \<not> is_space c)"
      using is_lower_not_space by blast
  qed
  then show ?thesis
    unfolding clean_text_tokens by (rule split_join)
qed

lemma clean_text_chars:
  assumes "c \<in> set (clean_text sw s)"
  shows "is_lower c \<or> c = CHR '' ''"
proof -
  let ?kept = "[w \<leftarrow> str_split (str_lower (re_sub s)). w \<notin> set sw]"
  from assms have "c \<in> set (str_join '' '' ?kept)"
    by (simp only: clean_text_tokens)
  then have "c \<in> set '' '' \<or> (\<exists>w\<in>set ?kept. c \<in> set w)"
    by (rule join_chars)
  then show ?thesis
  proof
    assume "c \<in> set '' ''"
    then show ?thesis by simp
  next
    assume "\<exists>w\<in>set ?kept. c \<in> set w"
    then obtain w where w: "w \<in> set ?kept" "c \<in> set w" by blast
    from kept_tokens [OF w(1)] w(2) show ?thesis by blast
  qed
qed

subsection \<open>The two readings of the cleaner agree\<close>

lemma upper_enum: "is_upper c \<Longrightarrow> c \<in> set latin_upper"
proof -
  assume "is_upper c"
  then have "(of_char c :: nat) \<in> {65..<91}"
    by (simp add: is_upper_def)
  then have "(of_char c :: nat) \<in> set [65..<91]"
    by (simp only: set_upt)
  then have "char_of (of_char c :: nat) \<in> char_of ` set [65..<91::nat]"
    by (rule imageI)
  then have "c \<in> set (map char_of [65..<91::nat])"
    by (simp only: set_map char_of_char)
  moreover have "map char_of [65..<91::nat] = latin_upper"
    by code_simp
  ultimately show ?thesis by (simp only:)
qed

lemma lower_enum: "is_lower c \<Longrightarrow> c \<in> set latin_lower"
proof -
  assume "is_lower c"
  then have "(of_char c :: nat) \<in> {97..<123}"
    by (simp add: is_lower_def)
  then have "(of_char c :: nat) \<in> set [97..<123]"
    by (simp only: set_upt)
  then have "char_of (of_char c :: nat) \<in> char_of ` set [97..<123::nat]"
    by (rule imageI)
  then have "c \<in> set (map char_of [97..<123::nat])"
    by (simp only: set_map char_of_char)
  moreover have "map char_of [97..<123::nat] = latin_lower"
    by code_simp
  ultimately show ?thesis by (simp only:)
qed

lemma latin_upper_is_upper: "\<forall>c\<in>set latin_upper. is_upper c"
  by code_simp

lemma latin_lower_is_lower: "\<forall>c\<in>set latin_lower. is_lower c"
  by code_simp

lemma is_alpha_latin: "is_alpha c = (c \<in> set (latin_lower @ latin_upper))"
proof -
  have "is_alpha c = (c \<in> set latin_lower \<or> c \<in> set latin_upper)"
    unfolding is_alpha_def
    using upper_enum lower_enum latin_upper_is_upper latin_lower_is_lower by blast
  then show ?thesis by (simp only: set_append Un_iff)
qed

lemma re_sub_spec: "re_sub s = replace_non_latin s"
  by (simp add: re_sub_def replace_non_latin_def is_alpha_latin)

lemma lower_table:
  "\<forall>c\<in>set latin_upper. map_of (zip latin_upper latin_lower) c = Some (lower_char c)"
  by code_simp

lemma lower_char_spec:
  "lower_char c = (case map_of (zip latin_upper latin_lower) c of None \<Rightarrow> c | Some l \<Rightarrow> l)"
proof (cases "is_upper c")
  case True
  then have "c \<in> set latin_upper" by (rule upper_enum)
  with lower_table have "map_of (zip latin_upper latin_lower) c = Some (lower_char c)"
    by blast
  then show ?thesis by (simp only: option.case)
next
  case False
  then have "c \<notin> set latin_upper" using latin_upper_is_upper by blast
  moreover have "length latin_upper = length latin_lower"
    by (simp add: latin_upper_def latin_lower_def)
  ultimately have "map_of (zip latin_upper latin_lower) c = None"
    by (simp add: map_of_zip_is_None)
  with False show ?thesis by (simp add: lower_char_def)
qed

lemma str_lower_spec: "str_lower s = lower_case s"
proof -
  have "lower_char =
          (\<lambda>c. case map_of (zip latin_upper latin_lower) c of None \<Rightarrow> c | Some l \<Rightarrow> l)"
    by (rule ext) (rule lower_char_spec)
  then show ?thesis by (simp only: str_lower_def lower_case_def)
qed

lemma pieces_nonempty: "pieces s \<noteq> []"
  by (induction s) (auto split: list.splits)

lemma split_aux_pieces:
  "split_aux acc s =
     filter (\<lambda>p. p \<noteq> []) (case pieces s of [] \<Rightarrow> [rev acc] | p # ps \<Rightarrow> (rev acc @ p) # ps)"
proof (induction s arbitrary: acc)
  case Nil
  then show ?case by simp
next
  case (Cons c cs)
  obtain p ps where p: "pieces cs = p # ps"
    using pieces_nonempty [of cs] by (cases "pieces cs") auto
  show ?case
  proof (cases "is_space c")
    case True
    then show ?thesis using Cons [of "[]"] p by simp
  next
    case False
    then show ?thesis using Cons [of "c # acc"] p by simp
  qed
qed

lemma str_split_spec: "str_split s = split_on_whitespace s"
proof -
  obtain p ps where "pieces s = p # ps"
    using pieces_nonempty [of s] by (cases "pieces s") auto
  then show ?thesis
    by (simp add: str_split_def split_on_whitespace_def split_aux_pieces)
qed

lemma filter_spec: "[w \<leftarrow> ws. w \<notin> set sw] = drop_stopwords sw ws"
  by (induction ws) simp_all

lemma str_join_spec: "str_join '' '' ws = rejoin ws"
  by (induction ws rule: induct_list012) (simp_all add: rejoin_def)

lemma split_example:
  "str_split (str_lower (re_sub ''Hello World! 123'')) = [''hello'', ''world'']"
  by code_simp

subsection \<open>Claims about the cleaner\<close>

text \<open>
  C5. For every stopword list and every input string, \<open>clean_text\<close> is the composition
  the specification describes: every character outside the Latin alphabet becomes a
  space, the text is lower-cased, split on whitespace, tokens of the stopword list are
  dropped, and the rest is rejoined with single spaces. When neither \<open>hello\<close> nor
  \<open>world\<close> is a stopword, the input \<open>Hello World! 123\<close> is cleaned to \<open>hello world\<close>.
\<close>

theorem clean_text_refines_spec:
  "clean_text sw text = clean_spec sw text
   \<and> (''hello'' \<notin> set sw \<and> ''world'' \<notin> set sw
        \<longrightarrow> clean_text sw ''Hello World! 123'' = ''hello world'')"
proof
  show "clean_text sw text = clean_spec sw text"
    by (simp add: clean_text_def clean_spec_def re_sub_spec str_lower_spec
        str_split_spec filter_spec str_join_spec)
  show "''hello'' \<notin> set sw \<and> ''world'' \<notin> set sw
          \<longrightarrow> clean_text sw ''Hello World! 123'' = ''hello world''"
    by (simp add: clean_text_tokens split_example)
qed

theorem clean_text_refines_spec_witness:
  "''hello'' \<notin> set stop_words_sample \<and> ''world'' \<notin> set stop_words_sample
   \<and> clean_text stop_words_sample ''Hello World! 123'' = ''hello world''
   \<and> clean_spec stop_words_sample ''The cat, and THE dog!'' = ''cat dog''"
proof -
  have h: "''hello'' \<notin> set stop_words_sample \<and> ''world'' \<notin> set stop_words_sample"
    by (simp add: stop_words_sample_def)
  have c: "clean_text stop_words_sample ''The cat, and THE dog!'' = ''cat dog''"
    by code_simp
  from h c clean_text_refines_spec [of stop_words_sample "''The cat, and THE dog!''"]
  show ?thesis by simp
qed

text \<open>
  C6. \<open>clean_text\<close> is idempotent: cleaning a cleaned string gives the same string
  back, for every input and every stopword list.
\<close>

theorem clean_text_idempotent:
  "clean_text sw (clean_text sw text) = clean_text sw text"
proof -
  let ?kept = "[w \<leftarrow> str_split (str_lower (re_sub text)). w \<notin> set sw]"
  have "str_lower (re_sub (clean_text sw text)) = clean_text sw text"
    by (rule lower_re_sub_fixed) (use clean_text_chars in blast)
  then have "clean_text sw (clean_text sw text)
               = str_join '' '' [w \<leftarrow> str_split (clean_text sw text). w \<notin> set sw]"
    by (simp add: clean_text_tokens [of sw "clean_text sw text"])
  also have "\<dots> = str_join '' '' [w \<leftarrow> ?kept. w \<notin> set sw]"
    by (simp only: split_clean_text)
  also have "\<dots> = str_join '' '' ?kept"
    by simp
  finally show ?thesis by (simp add: clean_text_tokens)
qed

text \<open>
  C7. When the input is empty, or every token left after replacing the non-Latin
  characters and lower-casing is a stopword, \<open>clean_text\<close> returns the empty string.
\<close>

theorem clean_text_all_stopwords:
  assumes "text = [] \<or> (\<forall>w\<in>set (str_split (str_lower (re_sub text))). w \<in> set sw)"
  shows "clean_text sw text = []"
proof -
  have "str_split (str_lower (re_sub [])) = []"
    by (simp add: re_sub_def str_lower_def str_split_def)
  with assms have "\<forall>w\<in>set (str_split (str_lower (re_sub text))). w \<in> set sw"
    by auto
  then have "[w \<leftarrow> str_split (str_lower (re_sub text)). w \<notin> set sw] = []"
    by (simp add: filter_empty_conv)
  then show ?thesis by (simp add: clean_text_tokens)
qed

theorem clean_text_all_stopwords_witness:
  "set (str_split (str_lower (re_sub ''The AND, the... 42 of it!''))) \<subseteq> set stop_words_sample
   \<and> clean_text stop_words_sample ''The AND, the... 42 of it!'' = []
   \<and> clean_text stop_words_sample [] = []"
proof -
  have h: "\<forall>w\<in>set (str_split (str_lower (re_sub ''The AND, the... 42 of it!''))).
             w \<in> set stop_words_sample"
    by code_simp
  from h clean_text_all_stopwords [of "''The AND, the... 42 of it!''" stop_words_sample]
    clean_text_all_stopwords [of "[]" stop_words_sample]
  show ?thesis by (simp add: subset_iff)
qed

text \<open>
  C9. Every cleaned string consists of lower-case ASCII letters and spaces only, has
  no two spaces in a row, neither starts nor ends with whitespace, and none of its
  tokens is a stopword.
\<close>

theorem clean_text_shape:
  "(\<forall>c\<in>set (clean_text sw text). is_lower c \<or> c = CHR '' '')
   \<and> no_double_space (clean_text sw text)
   \<and> (clean_text sw text \<noteq> []
        \<longrightarrow> \<not> is_space (hd (clean_text sw text)) \<and> \<not> is_space (last (clean_text sw text)))
   \<and> (\<forall>w\<in>set (str_split (clean_text sw text)). w \<notin> set sw)"
proof -
  let ?kept = "[w \<leftarrow> str_split (str_lower (re_sub text)). w \<notin> set sw]"
  have out: "clean_text sw text = str_join '' '' ?kept"
    by (rule clean_text_tokens)
  have kept: "w \<noteq> [] \<and> (\<forall>c\<in>set w. is_lower c) \<and> w \<notin> set sw" if "w \<in> set ?kept" for w
    using that by (rule kept_tokens)
  have chars: "\<forall>c\<in>set (clean_text sw text). is_lower c \<or> c = CHR '' ''"
    using clean_text_chars by blast
  have "\<forall>w\<in>set ?kept. w \<noteq> [] \<and> CHR '' '' \<notin> set w"
    using kept is_lower_not_blank by blast
  then have single: "no_double_space (clean_text sw text)"
    unfolding out by (rule no_double_space_join)
  have ends: "\<not> is_space (hd (clean_text sw text)) \<and> \<not> is_space (last (clean_text sw text))"
    if ne: "clean_text sw text \<noteq> []"
  proof -
    from ne have k: "?kept \<noteq> []" unfolding out by auto
    have "hd ?kept \<in> set ?kept" using k by (rule hd_in_set)
    moreover have "last ?kept \<in> set ?kept" using k by (rule last_in_set)
    ultimately have h: "hd ?kept \<noteq> []" "\<forall>c\<in>set (hd ?kept). is_lower c"
      and l: "last ?kept \<noteq> []" "\<forall>c\<in>set (last ?kept). is_lower c"
      using kept by blast+
    have "hd (clean_text sw text) = hd (hd ?kept)"
      unfolding out using k h(1) by (rule join_hd)
    moreover have "last (clean_text sw text) = last (last ?kept)"
      unfolding out using k l(1) by (rule join_last)
    moreover have "is_lower (hd (hd ?kept))" "is_lower (last (last ?kept))"
      using h l by simp_all
    ultimately show ?thesis by (simp add: is_lower_not_space)
  qed
  have "\<forall>w\<in>set (str_split (clean_text sw text)). w \<notin> set sw"
    by (simp add: split_clean_text)
  with chars single ends show ?thesis by blast
qed

theorem clean_text_shape_witness:
  "clean_text stop_words_sample ''  The cat, and THE dog don't  '' = ''cat dog''
   \<and> set ''cat dog'' \<subseteq> {c. is_lower c \<or> c = CHR '' ''}
   \<and> no_double_space ''cat dog''
   \<and> \<not> is_space (hd ''cat dog'') \<and> \<not> is_space (last ''cat dog'')
   \<and> set (str_split ''cat dog'') \<inter> set stop_words_sample = {}"
proof -
  have c: "clean_text stop_words_sample ''  The cat, and THE dog don't  '' = ''cat dog''"
    by code_simp
  from clean_text_shape [of stop_words_sample "''  The cat, and THE dog don't  ''"]
  have "(\<forall>c\<in>set ''cat dog''. is_lower c \<or> c = CHR '' '')
        \<and> no_double_space ''cat dog''
        \<and> \<not> is_space (hd ''cat dog'') \<and> \<not> is_space (last ''cat dog'')
        \<and> (\<forall>w\<in>set (str_split ''cat dog''). w \<notin> set stop_words_sample)"
    unfolding c by simp
  with c show ?thesis by blast
qed


section \<open>Properties of the credential store\<close>

lemma init_db_creates_table: "\<exists>rows. init_db db = Some rows"
  by (cases db) (simp_all add: init_db_def)

lemma init_db_idempotent: "init_db (init_db db) = init_db db"
  by (cases db) (simp_all add: init_db_def)

lemma login_user_result:
  "login_user (Some rows) u p
     = (Inr (find (\<lambda>r. username r = u \<and> password r = p) rows), Some rows)"
  by (simp add: login_user_def)

lemma register_user_keeps_keys_distinct:
  assumes "distinct (map username rows)"
    and "snd (register_user (Some rows) u n p) = Some rows'"
  shows "distinct (map username rows')"
  using assms by (auto simp: register_user_def split: if_splits)

lemma find_Some_set: "find P xs = Some x \<Longrightarrow> x \<in> set xs \<and> P x"
  by (induction xs) (auto split: if_splits)

lemma find_Some_ex: "(\<exists>x. find P xs = Some x) = (\<exists>x\<in>set xs. P x)"
  by (induction xs) auto

text \<open>
  C1. On an existing table, \<open>login_user\<close> returns a row exactly when the table holds a
  row whose username and password are equal, as strings, to the pair given; the row it
  returns is such a stored row, and without one it returns nothing.
\<close>

theorem login_user_iff_stored:
  "((\<exists>r. fst (login_user (Some rows) u p) = Inr (Some r))
      = (\<exists>r\<in>set rows. username r = u \<and> password r = p))
   \<and> (\<forall>r. fst (login_user (Some rows) u p) = Inr (Some r)
          \<longrightarrow> r \<in> set rows \<and> username r = u \<and> password r = p)
   \<and> ((\<forall>r\<in>set rows. username r \<noteq> u \<or> password r \<noteq> p)
          \<longrightarrow> fst (login_user (Some rows) u p) = Inr None)"
proof (intro conjI allI impI)
  let ?match = "\<lambda>r. username r = u \<and> password r = p"
  have res: "fst (login_user (Some rows) u p) = Inr (find ?match rows)"
    by (simp add: login_user_def)
  show "(\<exists>r. fst (login_user (Some rows) u p) = Inr (Some r)) = (\<exists>r\<in>set rows. ?match r)"
    unfolding res using find_Some_ex [of ?match rows] by simp
  show "r \<in> set rows" "username r = u" "password r = p"
    if "fst (login_user (Some rows) u p) = Inr (Some r)" for r
    using that find_Some_set [of ?match rows r] unfolding res by simp_all
  show "fst (login_user (Some rows) u p) = Inr None"
    if "\<forall>r\<in>set rows. username r \<noteq> u \<or> password r \<noteq> p"
    unfolding res using that by (simp add: find_None_iff)
qed

theorem login_user_iff_stored_witness:
  "fst (login_user (Some [\<lparr>username = ''alice'', name = ''Alice'', password = ''pw1''\<rparr>])
         ''alice'' ''pw1'')
     = Inr (Some \<lparr>username = ''alice'', name = ''Alice'', password = ''pw1''\<rparr>)
   \<and> fst (login_user (Some [\<lparr>username = ''alice'', name = ''Alice'', password = ''pw1''\<rparr>])
         ''alice'' ''PW1'') = Inr None
   \<and> fst (login_user (Some [\<lparr>username = ''alice'', name = ''Alice'', password = ''pw1''\<rparr>])
         ''Alice'' ''pw1'') = Inr None"
proof -
  let ?rows = "[\<lparr>username = ''alice'', name = ''Alice'', password = ''pw1''\<rparr>]"
  from login_user_iff_stored [of ?rows "''alice''" "''pw1''"]
  obtain r where "fst (login_user (Some ?rows) ''alice'' ''pw1'') = Inr (Some r)" "r \<in> set ?rows"
    by auto
  then have "fst (login_user (Some ?rows) ''alice'' ''pw1'') = Inr (Some (hd ?rows))"
    by simp
  moreover from login_user_iff_stored [of ?rows "''alice''" "''PW1''"]
  have "fst (login_user (Some ?rows) ''alice'' ''PW1'') = Inr None" by simp
  moreover from login_user_iff_stored [of ?rows "''Alice''" "''pw1''"]
  have "fst (login_user (Some ?rows) ''Alice'' ''pw1'') = Inr None" by simp
  ultimately show ?thesis by simp
qed

text \<open>
  C2. When a username that the table does not hold yet is registered twice, with any
  names and passwords, the first call succeeds, the second fails with the message
  that the username exists, the failed call leaves the database as it was, and the
  only row for that username carries the name and password of the first call.
\<close>

theorem register_user_twice:
  assumes "u \<notin> set (map username rows)"
  shows "fst (register_user (Some rows) u n1 p1) = Inr (True, ''User registered successfully.'')
   \<and> fst (register_user (snd (register_user (Some rows) u n1 p1)) u n2 p2)
       = Inr (False, ''Username already exists.'')
   \<and> snd (register_user (snd (register_user (Some rows) u n1 p1)) u n2 p2)
       = snd (register_user (Some rows) u n1 p1)
   \<and> (\<exists>rows'. snd (register_user (snd (register_user (Some rows) u n1 p1)) u n2 p2) = Some rows'
         \<and> filter (\<lambda>r. username r = u) rows' = [\<lparr>username = u, name = n1, password = p1\<rparr>])"
proof -
  let ?row = "\<lparr>username = u, name = n1, password = p1\<rparr>"
  have first: "register_user (Some rows) u n1 p1
                 = (Inr (True, ''User registered successfully.''), Some (rows @ [?row]))"
    using assms by (simp add: register_user_def)
  have second: "register_user (Some (rows @ [?row])) u n2 p2
                  = (Inr (False, ''Username already exists.''), Some (rows @ [?row]))"
    by (simp add: register_user_def)
  have "filter (\<lambda>r. username r = u) rows = []"
    using assms by (auto simp: filter_empty_conv)
  then have "filter (\<lambda>r. username r = u) (rows @ [?row]) = [?row]"
    by simp
  with first second show ?thesis by simp
qed

theorem register_user_twice_witness:
  "fst (register_user (Some []) ''alice'' ''Alice'' ''pw1'')
     = Inr (True, ''User registered successfully.'')
   \<and> fst (register_user (snd (register_user (Some []) ''alice'' ''Alice'' ''pw1''))
            ''alice'' ''Bob'' ''pw2'') = Inr (False, ''Username already exists.'')
   \<and> snd (register_user (snd (register_user (Some []) ''alice'' ''Alice'' ''pw1''))
            ''alice'' ''Bob'' ''pw2'')
       = Some [\<lparr>username = ''alice'', name = ''Alice'', password = ''pw1''\<rparr>]"
proof -
  have h: "''alice'' \<notin> set (map username [])" by simp
  have s: "snd (register_user (Some []) ''alice'' ''Alice'' ''pw1'')
             = Some [\<lparr>username = ''alice'', name = ''Alice'', password = ''pw1''\<rparr>]"
    by (simp add: register_user_def)
  from register_user_twice [OF h, of "''Alice''" "''pw1''" "''Bob''" "''pw2''"] s
  show ?thesis by simp
qed

text \<open>
  C10. \<open>login_user\<close> only reads: whatever the database and the credentials, the
  database after the call is the database before it; and a row it returns is a row
  of the table as stored, with the password column equal to the password given.
\<close>

theorem login_user_read_only:
  "snd (login_user db u p) = db
   \<and> (\<forall>r. fst (login_user db u p) = Inr (Some r)
          \<longrightarrow> (\<exists>rows. db = Some rows \<and> r \<in> set rows) \<and> username r = u \<and> password r = p)"
proof (cases db)
  case None
  then show ?thesis by (simp add: login_user_def)
next
  case (Some rows)
  let ?match = "\<lambda>r. username r = u \<and> password r = p"
  have run: "login_user db u p = (Inr (find ?match rows), db)"
    using Some by (simp add: login_user_def)
  have "(\<exists>rows. db = Some rows \<and> r \<in> set rows) \<and> username r = u \<and> password r = p"
    if "fst (login_user db u p) = Inr (Some r)" for r
  proof -
    from that run have "find ?match rows = Some r" by simp
    then have "r \<in> set rows \<and> ?match r" by (rule find_Some_set)
    with Some show ?thesis by blast
  qed
  moreover have "snd (login_user db u p) = db"
    using run by simp
  ultimately show ?thesis by blast
qed

theorem login_user_read_only_witness:
  "snd (login_user (Some [\<lparr>username = ''alice'', name = ''Alice'', password = ''pw1''\<rparr>])
         ''alice'' ''pw1'')
     = Some [\<lparr>username = ''alice'', name = ''Alice'', password = ''pw1''\<rparr>]
   \<and> snd (login_user (Some [\<lparr>username = ''alice'', name = ''Alice'', password = ''pw1''\<rparr>])
         ''alice'' ''wrong'')
     = Some [\<lparr>username = ''alice'', name = ''Alice'', password = ''pw1''\<rparr>]
   \<and> password (the (projr (fst (login_user
         (Some [\<lparr>username = ''alice'', name = ''Alice'', password = ''pw1''\<rparr>])
         ''alice'' ''pw1'')))) = ''pw1''"
proof -
  let ?db = "Some [\<lparr>username = ''alice'', name = ''Alice'', password = ''pw1''\<rparr>]"
  have r: "fst (login_user ?db ''alice'' ''pw1'')
             = Inr (Some \<lparr>username = ''alice'', name = ''Alice'', password = ''pw1''\<rparr>)"
    by (simp add: login_user_def)
  from login_user_read_only [of ?db "''alice''" "''pw1''"]
    login_user_read_only [of ?db "''alice''" "''wrong''"] r
  show ?thesis by simp
qed

text \<open>
  The end-to-end run of the specification: register, log in, fail to log in with a
  wrong password, fail to register the same username again.
\<close>

lemma credential_store_end_to_end:
  "register_user (init_db None) ''alice'' ''Alice'' ''pw1''
     = (Inr (True, ''User registered successfully.''),
        Some [\<lparr>username = ''alice'', name = ''Alice'', password = ''pw1''\<rparr>])
   \<and> fst (login_user (Some [\<lparr>username = ''alice'', name = ''Alice'', password = ''pw1''\<rparr>])
         ''alice'' ''pw1'')
       = Inr (Some \<lparr>username = ''alice'', name = ''Alice'', password = ''pw1''\<rparr>)
   \<and> fst (login_user (Some [\<lparr>username = ''alice'', name = ''Alice'', password = ''pw1''\<rparr>])
         ''alice'' ''wrong'') = Inr None
   \<and> fst (register_user (Some [\<lparr>username = ''alice'', name = ''Alice'', password = ''pw1''\<rparr>])
         ''alice'' ''Bob'' ''pw2'') = Inr (False, ''Username already exists.'')"
  by (simp add: register_user_def login_user_def init_db_def)

section \<open>Properties of the predictor\<close>

lemma predict_sentiment_raw:
  "predict_sentiment sw text model vectorizer
     = Inr (if model (vectorizer (clean_text sw text)) = 1 then ''Positive'' else ''Negative'')"
  by (simp add: predict_sentiment_def)

text \<open>
  C3. For every text, classifier and vectorizer, \<open>predict_sentiment\<close> returns a label;
  the label is \<open>Positive\<close> exactly when the classifier's raw output for the vectorized
  cleaned text is \<open>1\<close>, and \<open>Negative\<close> for every other raw output.
\<close>

theorem predict_sentiment_label:
  "predict_sentiment sw text model vectorizer
     = Inr (if model (vectorizer (clean_text sw text)) = 1 then ''Positive'' else ''Negative'')
   \<and> ((predict_sentiment sw text model vectorizer = Inr ''Positive'')
        = (model (vectorizer (clean_text sw text)) = 1))
   \<and> ((predict_sentiment sw text model vectorizer = Inr ''Negative'')
        = (model (vectorizer (clean_text sw text)) \<noteq> 1))"
  by (simp add: predict_sentiment_def)

text \<open>
  Raw outputs other than \<open>1\<close>, whether zero, negative or larger, give \<open>Negative\<close>.
\<close>

lemma predict_sentiment_other_outputs:
  "predict_sentiment sw text (\<lambda>row. 0) vectorizer = Inr ''Negative''
   \<and> predict_sentiment sw text (\<lambda>row. 2) vectorizer = Inr ''Negative''
   \<and> predict_sentiment sw text (\<lambda>row. 4) vectorizer = Inr ''Negative''
   \<and> predict_sentiment sw text (\<lambda>row. - 1) vectorizer = Inr ''Negative''
   \<and> predict_sentiment sw text (\<lambda>row. 1) vectorizer = Inr ''Positive''"
  by (simp add: predict_sentiment_def)

text \<open>
  C8. \<open>predict_sentiment\<close> is deterministic and keeps no state. For every text and
  every pair of methods: two calls whose inputs are the same (the text, the states of
  the classifier and the vectorizer, and the stopword global) return the same label,
  whatever else differs between the two worlds; a call leaves the stopword global and
  the credential table as they were; and when the two methods are read-only, a call
  leaves the whole world as it was, so that a call made after any other call returns
  what it would have returned without it.
\<close>

theorem predict_sentiment_call_deterministic:
  "(stop_words_global w2 = stop_words_global w1 \<and> model_state w2 = model_state w1
      \<and> vectorizer_state w2 = vectorizer_state w1
      \<longrightarrow> fst (predict_sentiment_call text predict transform w2)
            = fst (predict_sentiment_call text predict transform w1))
   \<and> stop_words_global (snd (predict_sentiment_call text predict transform w))
       = stop_words_global w
   \<and> users_db (snd (predict_sentiment_call text predict transform w)) = users_db w
   \<and> (read_only predict \<and> read_only transform
        \<longrightarrow> snd (predict_sentiment_call text predict transform w) = w
          \<and> fst (predict_sentiment_call text predict transform
                   (snd (predict_sentiment_call text0 predict transform w)))
              = fst (predict_sentiment_call text predict transform w))"
proof (intro conjI impI)
  show "fst (predict_sentiment_call text predict transform w2)
          = fst (predict_sentiment_call text predict transform w1)"
    if "stop_words_global w2 = stop_words_global w1 \<and> model_state w2 = model_state w1
          \<and> vectorizer_state w2 = vectorizer_state w1"
    using that by (simp add: predict_sentiment_call_def Let_def split: prod.splits)
  show "stop_words_global (snd (predict_sentiment_call text predict transform w))
          = stop_words_global w"
    by (simp add: predict_sentiment_call_def Let_def split: prod.splits)
  show "users_db (snd (predict_sentiment_call text predict transform w)) = users_db w"
    by (simp add: predict_sentiment_call_def Let_def split: prod.splits)
  have unchanged: "snd (predict_sentiment_call t predict transform w) = w"
    if ro: "read_only predict \<and> read_only transform" for t
  proof -
    obtain vector vs where v: "transform (vectorizer_state w)
        [clean_text (stop_words_global w) t] = (vector, vs)"
      by (cases "transform (vectorizer_state w) [clean_text (stop_words_global w) t]")
    obtain predictions ms where p: "predict (model_state w) vector = (predictions, ms)"
      by (cases "predict (model_state w) vector")
    from ro v have "vs = vectorizer_state w"
      unfolding read_only_def by (metis snd_conv)
    moreover from ro p have "ms = model_state w"
      unfolding read_only_def by (metis snd_conv)
    ultimately show ?thesis
      using v p by (simp add: predict_sentiment_call_def)
  qed
  show "snd (predict_sentiment_call text predict transform w) = w"
    if "read_only predict \<and> read_only transform"
    using that by (rule unchanged)
  show "fst (predict_sentiment_call text predict transform
               (snd (predict_sentiment_call text0 predict transform w)))
          = fst (predict_sentiment_call text predict transform w)"
    if "read_only predict \<and> read_only transform"
    using that by (simp only: unchanged)
qed

theorem predict_sentiment_call_deterministic_witness:
  "read_only demo_predict \<and> read_only demo_transform
   \<and> fst (predict_sentiment_call ''A good day!'' demo_predict demo_transform demo_world)
       = Inr ''Positive''
   \<and> snd (predict_sentiment_call ''A good day!'' demo_predict demo_transform demo_world)
       = demo_world
   \<and> fst (predict_sentiment_call ''A good day!'' demo_predict demo_transform
            (snd (predict_sentiment_call ''So bad'' demo_predict demo_transform demo_world)))
       = Inr ''Positive''
   \<and> fst (predict_sentiment_call ''A good day!'' demo_predict demo_transform
            (demo_world\<lparr>users_db := None\<rparr>)) = Inr ''Positive''"
proof -
  have ro: "read_only demo_predict \<and> read_only demo_transform"
    by (simp add: read_only_def demo_predict_def demo_transform_def)
  have c: "clean_text stop_words_sample ''A good day!'' = ''good day''"
    by code_simp
  have l: "fst (predict_sentiment_call ''A good day!'' demo_predict demo_transform demo_world)
             = Inr ''Positive''"
    by (simp add: predict_sentiment_call_def demo_world_def demo_predict_def
        demo_transform_def c)
  have same: "stop_words_global (demo_world\<lparr>users_db := None\<rparr>) = stop_words_global demo_world
      \<and> model_state (demo_world\<lparr>users_db := None\<rparr>) = model_state demo_world
      \<and> vectorizer_state (demo_world\<lparr>users_db := None\<rparr>) = vectorizer_state demo_world"
    by simp
  from predict_sentiment_call_deterministic [of "demo_world\<lparr>users_db := None\<rparr>" demo_world
      "''A good day!''" demo_predict demo_transform demo_world "''So bad''"] ro l same
  show ?thesis by simp
qed

text \<open>
  For methods that work row by row and are read-only, the call returns what
  \<open>predict_sentiment\<close> returns on the functions the methods compute, with the global as
  the stopword list.
\<close>

lemma predict_sentiment_call_pure:
  assumes "\<And>s rows. predict s rows = (map model rows, s)"
    and "\<And>s documents. transform s documents = (map vectorizer documents, s)"
  shows "predict_sentiment_call text predict transform w
           = (predict_sentiment (stop_words_global w) text model vectorizer, w)"
  by (simp add: predict_sentiment_call_def predict_sentiment_def assms)

text \<open>
  The read-only condition on the methods is needed for the last part: an object that
  counts its calls answers differently the second time, through its own state and not
  through anything \<open>predict_sentiment\<close> keeps.
\<close>

lemma counting_predict_changes_answer:
  "fst (predict_sentiment_call ''A good day!'' counting_predict demo_transform demo_world)
     = Inr ''Positive''
   \<and> fst (predict_sentiment_call ''A good day!'' counting_predict demo_transform
            (snd (predict_sentiment_call ''A good day!'' counting_predict demo_transform
                    demo_world))) = Inr ''Negative''
   \<and> model_state (snd (predict_sentiment_call ''A good day!'' counting_predict
                          demo_transform demo_world)) \<noteq> model_state demo_world"
  by (simp add: predict_sentiment_call_def counting_predict_def demo_transform_def
      demo_world_def)

text \<open>
  The label depends on the inputs only through the raw output at the vectorized
  cleaned text, and the loop over fetched tweets labels each tweet as a single call
  would, whatever came before it.
\<close>

lemma predict_sentiment_depends_on_raw_output:
  "model2 (vectorizer2 (clean_text sw text2)) = model1 (vectorizer1 (clean_text sw text1))
     \<Longrightarrow> predict_sentiment sw text2 model2 vectorizer2
           = predict_sentiment sw text1 model1 vectorizer1"
  by (simp add: predict_sentiment_raw)

lemma show_tweets_length:
  "show_tweets sw model vectorizer tweets = Inr ms \<Longrightarrow> length ms = length tweets"
  by (induction tweets arbitrary: ms)
     (auto simp: predict_sentiment_raw Let_def split: sum.splits)

lemma show_tweets_returns: "\<exists>ms. show_tweets sw model vectorizer tweets = Inr ms"
  by (induction tweets) (auto simp: predict_sentiment_raw Let_def)

section \<open>Properties of the remote fetch\<close>

lemma tweet_texts_empty: "tweet_texts [] = Inr []"
  by simp

text \<open>
  C4, as the code has it. \<open>get_tweets\<close> returns the empty list when the scraper is
  not available, and when the remote call returns a result whose \<open>tweets\<close> entry is
  missing or empty. Once the model bundle is loaded and the tweet mode chosen, a
  missing scraper gives a warning, and a fetch that yields no tweet gives the
  informational message and no prediction.
\<close>

theorem get_tweets_empty_result:
  "get_tweets False nitter u = Inr []
   \<and> (nitter u = Inr data \<and> (data ''tweets'' = None \<or> data ''tweets'' = Some [])
        \<longrightarrow> get_tweets True nitter u = Inr [])
   \<and> (load_model (model_choice inp) = Inr (model, vectorizer)
        \<and> option_choice inp = ''Analyze tweets from username''
        \<longrightarrow> run_sentiment_analysis sw False nitter load_model inp
              = Inr [Warning ''Nitter module not installed. Twitter scraping unavailable.''])
   \<and> (load_model (model_choice inp) = Inr (model, vectorizer)
        \<and> option_choice inp = ''Analyze tweets from username''
        \<and> fetch_clicked inp
        \<and> get_tweets True nitter (twitter_user inp) = Inr []
        \<longrightarrow> run_sentiment_analysis sw True nitter load_model inp
              = Inr [Info ''No tweets found or failed to fetch.''])"
proof (intro conjI impI)
  show "get_tweets False nitter u = Inr []"
    by (simp add: get_tweets_def)
  show "get_tweets True nitter u = Inr []"
    if "nitter u = Inr data \<and> (data ''tweets'' = None \<or> data ''tweets'' = Some [])"
    using that by (auto simp: get_tweets_def)
  show "run_sentiment_analysis sw False nitter load_model inp
          = Inr [Warning ''Nitter module not installed. Twitter scraping unavailable.'']"
    if "load_model (model_choice inp) = Inr (model, vectorizer)
        \<and> option_choice inp = ''Analyze tweets from username''"
    using that by (simp add: run_sentiment_analysis_def)
  show "run_sentiment_analysis sw True nitter load_model inp
          = Inr [Info ''No tweets found or failed to fetch.'']"
    if "load_model (model_choice inp) = Inr (model, vectorizer)
        \<and> option_choice inp = ''Analyze tweets from username''
        \<and> fetch_clicked inp
        \<and> get_tweets True nitter (twitter_user inp) = Inr []"
    using that by (simp add: run_sentiment_analysis_def)
qed

theorem get_tweets_empty_result_witness:
  "get_tweets False failing_nitter ''alice'' = Inr []
   \<and> get_tweets True empty_nitter ''alice'' = Inr []
   \<and> run_sentiment_analysis stop_words_sample False failing_nitter demo_load_model demo_input
       = Inr [Warning ''Nitter module not installed. Twitter scraping unavailable.'']
   \<and> run_sentiment_analysis stop_words_sample True empty_nitter demo_load_model demo_input
       = Inr [Info ''No tweets found or failed to fetch.'']"
proof -
  let ?data = "[''tweets'' \<mapsto> [], ''threads'' \<mapsto> []] :: tweets_data"
  let ?model = "\<lambda>row :: string. if row = ''good day'' then 1 else 0 :: int"
  let ?vectorizer = "\<lambda>document :: string. document"
  have n: "empty_nitter ''alice'' = Inr ?data \<and> (?data ''tweets'' = None \<or> ?data ''tweets'' = Some [])"
    by (simp add: empty_nitter_def)
  have l: "demo_load_model (model_choice demo_input) = Inr (?model, ?vectorizer)"
    by (simp add: demo_load_model_def)
  have o: "option_choice demo_input = ''Analyze tweets from username''"
    "fetch_clicked demo_input" "twitter_user demo_input = ''alice''"
    by (simp_all add: demo_input_def)
  note t = get_tweets_empty_result [of _ "''alice''" ?data demo_load_model demo_input
      ?model ?vectorizer stop_words_sample]
  have a: "get_tweets False failing_nitter ''alice'' = Inr []"
    using t [of failing_nitter] by blast
  have b: "get_tweets True empty_nitter ''alice'' = Inr []"
    using t [of empty_nitter] n by blast
  have c: "run_sentiment_analysis stop_words_sample False failing_nitter demo_load_model demo_input
             = Inr [Warning ''Nitter module not installed. Twitter scraping unavailable.'']"
    using t [of failing_nitter] l o(1) by blast
  have d: "run_sentiment_analysis stop_words_sample True empty_nitter demo_load_model demo_input
             = Inr [Info ''No tweets found or failed to fetch.'']"
    using t [of empty_nitter] l o b by simp
  from a b c d show ?thesis by blast
qed

text \<open>
  The claim as the specification states it fails where the remote call itself raises:
  \<open>get_tweets\<close> has no handler, so the exception leaves \<open>get_tweets\<close> and the analysis
  flow instead of becoming an empty list.
\<close>

theorem get_tweets_remote_failure_propagates:
  "get_tweets True failing_nitter ''alice'' = Inl (ExternalError ''connection refused'')
   \<and> get_tweets True failing_nitter ''alice'' \<noteq> Inr []
   \<and> run_sentiment_analysis stop_words_sample True failing_nitter demo_load_model demo_input
       = Inl (ExternalError ''connection refused'')"
  by (simp add: get_tweets_def failing_nitter_def run_sentiment_analysis_def
      demo_load_model_def demo_input_def)

end
